theory Spec2Isabelle
  imports Complex_Main "HOL-Library.AList"
begin

section \<open>Python and pandas primitives used by the three components\<close>

text \<open>
  The sources under \<^verbatim>\<open>src/src\<close> are Python over pandas frames
  (\<^verbatim>\<open>k_anonymity.py\<close>), plain lists (\<^verbatim>\<open>pii_detection.py\<close>) and
  the Fernet cipher (\<^verbatim>\<open>pseudonymization.py\<close>).  Every exception the code
  lets escape is a value \<open>Inl e\<close> of a sum type; a normal return is \<open>Inr v\<close>.
\<close>

datatype py_error = ValueError string | KeyError string | TypeError string

text \<open>Python's \<^verbatim>\<open>x or y\<close> on an optional integer: \<^verbatim>\<open>None\<close> and \<^verbatim>\<open>0\<close> are falsy.\<close>

definition py_or :: "int option \<Rightarrow> int \<Rightarrow> int" where
  "py_or x y = (case x of None \<Rightarrow> y | Some v \<Rightarrow> if v = 0 then y else v)"

text \<open>\<^verbatim>\<open>dict(pairs)\<close>: later pairs overwrite earlier keys, insertion order is kept.\<close>

definition py_dict :: "('k \<times> 'v) list \<Rightarrow> ('k \<times> 'v) list" where
  "py_dict ps = foldl (\<lambda>d (k, v). AList.update k v d) [] ps"

text \<open>\<^verbatim>\<open>str(n)\<close> for an integer, as the f-strings of the recommendations print it.\<close>

definition digit_char :: "nat \<Rightarrow> char" where
  "digit_char d = char_of (48 + d)"

function str_nat :: "nat \<Rightarrow> string" where
  "str_nat n = (if n < 10 then [digit_char n] else str_nat (n div 10) @ [digit_char (n mod 10)])"
  by pat_completeness auto
termination
  by (relation "measure id") auto

declare str_nat.simps [simp del]

definition str_int :: "int \<Rightarrow> string" where
  "str_int i = (if i < 0 then CHR ''-'' # str_nat (nat (- i)) else str_nat (nat i))"

text \<open>
  \<^verbatim>\<open>repr\<close> of a list of column names, as \<^verbatim>\<open>f"{missing_cols}"\<close> prints it
  (names without quotes, backslashes or control characters, which \<^verbatim>\<open>repr\<close> would escape).
\<close>

fun join_comma :: "string list \<Rightarrow> string" where
  "join_comma [] = []"
| "join_comma [s] = s"
| "join_comma (s # t # ss) = s @ '', '' @ join_comma (t # ss)"

definition repr_str_list :: "string list \<Rightarrow> string" where
  "repr_str_list ss = ''['' @ join_comma (map (\<lambda>s. [CHR 0x27] @ s @ [CHR 0x27]) ss) @ '']''"

subsection \<open>Tabular batches\<close>

text \<open>
  A batch is a pandas frame: an ordered list of column names with their dtypes and the
  rows, each row aligned with the column list.  A cell is a nullable scalar; \<open>None\<close> is
  the missing value (\<^verbatim>\<open>None\<close>/\<^verbatim>\<open>NaN\<close>/\<^verbatim>\<open>NaT\<close>).  Numbers are integers, dates are
  year-month-day triples, and \<open>Month\<close>/\<open>Year\<close> are the periods that date
  generalisation produces.  Rows are addressed by position: the frame carries pandas'
  default index, as the batches of the specification do.
\<close>

datatype scalar = Num int | Text string | Date int int int | Month int int | Year int

type_synonym cell = "scalar option"

datatype dtype = Numeric | Datetime | Period | Object

record dataframe =
  columns :: "string list"
  dtypes :: "dtype list"
  rows :: "cell list list"

text \<open>
  A batch has distinct column names and rows as long as the column list.  The example
  batches below are well formed; the general properties hold for every value of the
  record type.
\<close>

definition well_formed :: "dataframe \<Rightarrow> bool" where
  "well_formed df \<longleftrightarrow>
     distinct (columns df) \<and> length (dtypes df) = length (columns df) \<and>
     list_all (\<lambda>r. length r = length (columns df)) (rows df)"

text \<open>The cell of row \<open>r\<close> in column \<open>c\<close>.\<close>

definition cell_of :: "string list \<Rightarrow> cell list \<Rightarrow> string \<Rightarrow> cell" where
  "cell_of cols r c = (case map_of (zip cols r) c of None \<Rightarrow> None | Some v \<Rightarrow> v)"

definition dtype_of :: "dataframe \<Rightarrow> string \<Rightarrow> dtype" where
  "dtype_of df c = (case map_of (zip (columns df) (dtypes df)) c of None \<Rightarrow> Object | Some d \<Rightarrow> d)"

text \<open>
  \<^verbatim>\<open>df[cols]\<close> with a list of labels: the rows restricted to these columns, in the
  order of the list; a label that is no column raises \<^verbatim>\<open>KeyError\<close>.
\<close>

definition select_columns :: "dataframe \<Rightarrow> string list \<Rightarrow> py_error + cell list list" where
  "select_columns df cs =
     (case filter (\<lambda>c. c \<notin> set (columns df)) cs of
        [] \<Rightarrow> Inr (map (\<lambda>r. map (cell_of (columns df) r) cs) (rows df))
      | missing # _ \<Rightarrow> Inl (KeyError (repr_str_list (filter (\<lambda>c. c \<notin> set (columns df)) cs) @ '' not in index'')))"

text \<open>
  \<^verbatim>\<open>DataFrame.value_counts()\<close> with its defaults (\<^verbatim>\<open>dropna=True\<close>,
  \<^verbatim>\<open>sort=True\<close>): the distinct tuples of the rows that hold no missing value, each with
  its number of occurrences, largest count first.  pandas groups by the column labels,
  so an empty label list over a non-empty frame and a repeated label raise
  \<^verbatim>\<open>ValueError\<close>.
\<close>

definition complete :: "cell list \<Rightarrow> bool" where
  "complete t \<longleftrightarrow> None \<notin> set t"

definition value_counts :: "string list \<Rightarrow> cell list list \<Rightarrow> py_error + (cell list \<times> nat) list" where
  "value_counts cs ts =
     (if \<not> distinct cs then Inl (ValueError ''Grouper not 1-dimensional'')
      else if cs = [] \<and> ts \<noteq> [] then Inl (ValueError ''No group keys passed!'')
      else Inr (sort_key (\<lambda>(t, n). - int n)
                  (map (\<lambda>t. (t, count_list (filter complete ts) t)) (remdups (filter complete ts)))))"

text \<open>
  Boolean series over the rows of a frame: \<^verbatim>\<open>df[col] == val\<close> (a missing value
  equals nothing), \<^verbatim>\<open>&\<close>, \<^verbatim>\<open>|\<close>, and \<^verbatim>\<open>df[mask]\<close>.
\<close>

definition cell_eq :: "cell \<Rightarrow> cell \<Rightarrow> bool" where
  "cell_eq a b \<longleftrightarrow> a \<noteq> None \<and> b \<noteq> None \<and> a = b"

definition series_eq :: "dataframe \<Rightarrow> string \<Rightarrow> cell \<Rightarrow> bool list" where
  "series_eq df col val = map (\<lambda>r. cell_eq (cell_of (columns df) r col) val) (rows df)"

definition series_and :: "bool list \<Rightarrow> bool list \<Rightarrow> bool list" where
  "series_and a b = map2 (\<and>) a b"

definition series_or :: "bool list \<Rightarrow> bool list \<Rightarrow> bool list" where
  "series_or a b = map2 (\<or>) a b"

definition boolean_index :: "dataframe \<Rightarrow> bool list \<Rightarrow> dataframe" where
  "boolean_index df bmask = df\<lparr>rows := map fst (filter snd (zip (rows df) bmask))\<rparr>"

section \<open>K-anonymity engine (\<^verbatim>\<open>src/src/k_anonymity.py\<close>)\<close>

record KAnonymityResult =
  k_value :: int
  is_compliant :: bool
  vulnerable_combinations :: "(string \<times> cell) list list"
  recommendations :: "string list"

record KAnonymityChecker =
  k_threshold :: int

text \<open>
  \<^verbatim>\<open>check_k_anonymity\<close>: the missing-column guard, then the counts of the
  quasi-identifier tuples, their minimum, the groups below the threshold as dictionaries
  (\<^verbatim>\<open>dict(zip(quasi_identifiers, combo))\<close> with the key \<^verbatim>\<open>'count'\<close> set last) and
  the recommendations.  The argument is a frame by its type, so the \<^verbatim>\<open>isinstance\<close>
  test at the head of the function passes.
\<close>

definition check_k_anonymity ::
  "KAnonymityChecker \<Rightarrow> dataframe \<Rightarrow> string list \<Rightarrow> py_error + KAnonymityResult" where
  "check_k_anonymity self df quasi_identifiers =
     (let missing_cols = filter (\<lambda>col. col \<notin> set (columns df)) quasi_identifiers in
      if missing_cols \<noteq> [] then
        Inr \<lparr>k_value = 0, is_compliant = False, vulnerable_combinations = [],
             recommendations = [''Missing columns: '' @ repr_str_list missing_cols]\<rparr>
      else
        case select_columns df quasi_identifiers of Inl e \<Rightarrow> Inl e | Inr ts \<Rightarrow>
        case value_counts quasi_identifiers ts of Inl e \<Rightarrow> Inl e | Inr combination_counts \<Rightarrow>
          let min_k = (case map snd combination_counts of [] \<Rightarrow> 0 | n # ns \<Rightarrow> int (fold min ns n));
              vulnerable = filter (\<lambda>(combo, count). int count < k_threshold self) combination_counts;
              vulnerable_dicts =
                map (\<lambda>(combo, count).
                       AList.update ''count'' (Some (Num (int count)))
                         (py_dict (zip quasi_identifiers combo))) vulnerable;
              recs =
                (if min_k < k_threshold self then
                   [''Dataset has k='' @ str_int min_k @ '', but threshold is ''
                      @ str_int (k_threshold self),
                    ''Found '' @ str_int (int (length vulnerable_dicts)) @ '' vulnerable combinations'',
                    ''Consider: Generalization, Suppression, or Sampling'']
                 else [])
          in Inr \<lparr>k_value = min_k, is_compliant = (k_threshold self \<le> min_k),
                  vulnerable_combinations = vulnerable_dicts, recommendations = recs\<rparr>)"

text \<open>
  \<^verbatim>\<open>generalize\<close>: numeric columns are floored to a multiple of 10/100/1000, datetime
  columns become month or year periods, any other column is cast to text and truncated to
  5 or 3 characters or replaced by the mask.  The level is the source's string: anything
  but \<^verbatim>\<open>"low"\<close> and \<^verbatim>\<open>"medium"\<close> takes the last branch.
\<close>

definition map_column :: "dataframe \<Rightarrow> string \<Rightarrow> dtype \<Rightarrow> (cell \<Rightarrow> cell) \<Rightarrow> dataframe" where
  "map_column df column d f =
     df\<lparr>dtypes := map (\<lambda>(c, t). if c = column then d else t) (zip (columns df) (dtypes df)),
        rows := map (\<lambda>r. map (\<lambda>(c, v). if c = column then f v else v) (zip (columns df) r)) (rows df)\<rparr>"

definition floor_to :: "int \<Rightarrow> cell \<Rightarrow> cell" where
  "floor_to b v = (case v of Some (Num n) \<Rightarrow> Some (Num ((n div b) * b)) | _ \<Rightarrow> v)"

definition to_period :: "bool \<Rightarrow> cell \<Rightarrow> cell" where
  "to_period monthly v =
     (case v of Some (Date y m d) \<Rightarrow> Some (if monthly then Month y m else Year y) | _ \<Rightarrow> v)"

text \<open>\<^verbatim>\<open>astype(str)\<close> on a cell of a text column: a missing \<^verbatim>\<open>None\<close> prints as itself.\<close>

definition astype_str :: "cell \<Rightarrow> string" where
  "astype_str v =
     (case v of None \<Rightarrow> ''None'' | Some (Text s) \<Rightarrow> s | Some (Num n) \<Rightarrow> str_int n
      | Some (Date y m d) \<Rightarrow> str_int y @ ''-'' @ str_int m @ ''-'' @ str_int d
      | Some (Month y m) \<Rightarrow> str_int y @ ''-'' @ str_int m
      | Some (Year y) \<Rightarrow> str_int y)"

definition generalize :: "dataframe \<Rightarrow> string \<Rightarrow> string \<Rightarrow> py_error + dataframe" where
  "generalize df column generalization_level =
     (if column \<notin> set (columns df) then Inl (ValueError (''Column '' @ column @ '' not found''))
      else if dtype_of df column = Numeric then
        (if generalization_level = ''low'' then Inr (map_column df column Numeric (floor_to 10))
         else if generalization_level = ''medium'' then Inr (map_column df column Numeric (floor_to 100))
         else Inr (map_column df column Numeric (floor_to 1000)))
      else if dtype_of df column = Datetime then
        (if generalization_level = ''low'' then Inr (map_column df column Period (to_period True))
         else if generalization_level = ''medium'' then Inr (map_column df column Period (to_period False))
         else Inr (map_column df column Period (to_period False)))
      else
        (if generalization_level = ''low'' then
           Inr (map_column df column Object (\<lambda>v. Some (Text (take 5 (astype_str v)))))
         else if generalization_level = ''medium'' then
           Inr (map_column df column Object (\<lambda>v. Some (Text (take 3 (astype_str v)))))
         else Inr (map_column df column Object (\<lambda>v. Some (Text ''***'')))))"

text \<open>
  \<^verbatim>\<open>suppress_rows\<close>: \<^verbatim>\<open>min_group_size or self.k_threshold\<close>, the counts, the
  combinations with a sufficient count, the early return of an empty frame with the same
  columns, and otherwise the mask built by the two nested loops and \<^verbatim>\<open>df[mask]\<close>.
  \<^verbatim>\<open>df[quasi_identifiers]\<close> is not guarded: an absent column raises.  The counts of a
  frame are indexed by tuples, one value per column, so \<^verbatim>\<open>isinstance(combo, tuple)\<close>
  holds; the other branch builds the same dictionary for the single column of a plain
  index.
\<close>

definition row_mask_of :: "dataframe \<Rightarrow> (string \<times> cell) list \<Rightarrow> bool list" where
  "row_mask_of df combo_dict =
     foldl (\<lambda>row_mask (col, val). series_and row_mask (series_eq df col val))
       (replicate (length (rows df)) True) combo_dict"

definition suppress_rows ::
  "KAnonymityChecker \<Rightarrow> dataframe \<Rightarrow> string list \<Rightarrow> int option \<Rightarrow> py_error + dataframe" where
  "suppress_rows self df quasi_identifiers min_group_size =
     (let m = py_or min_group_size (k_threshold self) in
      case select_columns df quasi_identifiers of Inl e \<Rightarrow> Inl e | Inr ts \<Rightarrow>
      case value_counts quasi_identifiers ts of Inl e \<Rightarrow> Inl e | Inr combination_counts \<Rightarrow>
        let valid_combinations =
              map fst (filter (\<lambda>(combo, count). m \<le> int count) combination_counts) in
        if valid_combinations = [] then
          Inr \<lparr>columns = columns df, dtypes = map (\<lambda>_. Object) (columns df), rows = []\<rparr>
        else
          let bmask =
                foldl (\<lambda>acc combo.
                         series_or acc (row_mask_of df (py_dict (zip quasi_identifiers combo))))
                  (replicate (length (rows df)) False) valid_combinations
          in Inr (boolean_index df bmask))"

text \<open>
  \<^verbatim>\<open>ensure_k_anonymity\<close>: the optional generalisation loop (a column of the strategy
  that is absent is skipped), the check, and when the check fails and suppression is
  enabled, suppression and a second check.
\<close>

definition apply_generalization :: "dataframe \<Rightarrow> (string \<times> string) list option \<Rightarrow> py_error + dataframe" where
  "apply_generalization df generalization_strategy =
     (case generalization_strategy of
        None \<Rightarrow> Inr df
      | Some strategy \<Rightarrow>
          foldl (\<lambda>acc (column, level).
                   case acc of Inl e \<Rightarrow> Inl e
                   | Inr result_df \<Rightarrow>
                       if column \<in> set (columns result_df) then generalize result_df column level
                       else Inr result_df)
            (Inr df) strategy)"

definition ensure_k_anonymity ::
  "KAnonymityChecker \<Rightarrow> dataframe \<Rightarrow> string list \<Rightarrow> (string \<times> string) list option \<Rightarrow> bool
     \<Rightarrow> py_error + (dataframe \<times> KAnonymityResult)" where
  "ensure_k_anonymity self df quasi_identifiers generalization_strategy apply_suppression =
     (case apply_generalization df generalization_strategy of Inl e \<Rightarrow> Inl e | Inr result_df \<Rightarrow>
      case check_k_anonymity self result_df quasi_identifiers of Inl e \<Rightarrow> Inl e | Inr check_result \<Rightarrow>
        if \<not> is_compliant check_result \<and> apply_suppression then
          (case suppress_rows self result_df quasi_identifiers None of Inl e \<Rightarrow> Inl e
           | Inr suppressed \<Rightarrow>
               (case check_k_anonymity self suppressed quasi_identifiers of Inl e \<Rightarrow> Inl e
                | Inr rechecked \<Rightarrow> Inr (suppressed, rechecked)))
        else Inr (result_df, check_result))"

text \<open>
  \<^verbatim>\<open>create_aggregate_only_view\<close>.  \<^verbatim>\<open>df.groupby(cols)\<close> raises on an absent
  label and on an empty label list; with its default \<^verbatim>\<open>dropna=True\<close> the groups are the
  distinct key tuples without a missing value, each with its member rows (pandas lists them
  in key order; the order plays no role below).  The aggregation functions are pandas'
  own, referred to by name: they are a parameter \<open>agg\<close>, which maps a function name and
  the values of one column within one group to the statistic, or to \<open>None\<close> where pandas
  raises (an unknown name, a sum over text).
\<close>

type_synonym aggregator = "string \<Rightarrow> cell list \<Rightarrow> cell option"

definition groupby :: "dataframe \<Rightarrow> string list \<Rightarrow> py_error + (cell list \<times> cell list list) list" where
  "groupby df by_cols =
     (case filter (\<lambda>c. c \<notin> set (columns df)) by_cols of
        missing # _ \<Rightarrow> Inl (KeyError missing)
      | [] \<Rightarrow>
          if \<not> distinct by_cols then Inl (ValueError ''Grouper not 1-dimensional'')
          else if by_cols = [] then Inl (ValueError ''No group keys passed!'')
          else Inr (map (\<lambda>k. (k, filter (\<lambda>r. map (cell_of (columns df) r) by_cols = k) (rows df)))
                      (remdups (filter complete (map (\<lambda>r. map (cell_of (columns df) r) by_cols) (rows df))))))"

text \<open>\<^verbatim>\<open>grouped.size()\<close>: the number of member rows of each group.\<close>

definition group_sizes :: "(cell list \<times> cell list list) list \<Rightarrow> cell list" where
  "group_sizes grouped = map (\<lambda>(k, members). Some (Num (int (length members)))) grouped"

definition infer_dtype :: "cell list \<Rightarrow> dtype" where
  "infer_dtype vs =
     (if list_all (\<lambda>v. case v of Some (Num _) \<Rightarrow> True | None \<Rightarrow> True | _ \<Rightarrow> False) vs then Numeric
      else if list_all (\<lambda>v. case v of Some (Date _ _ _) \<Rightarrow> True | None \<Rightarrow> True | _ \<Rightarrow> False) vs then Datetime
      else Object)"

text \<open>
  \<^verbatim>\<open>frame[name] = values\<close> overwrites the column when the frame has it and appends it
  otherwise; \<^verbatim>\<open>frame[name]\<close> raises \<^verbatim>\<open>KeyError\<close> on an absent column;
  \<^verbatim>\<open>frame.drop(columns=[name])\<close> removes it; \<^verbatim>\<open>series >= m\<close> compares
  elementwise, a missing value compares false, and a value that is no number raises
  \<^verbatim>\<open>TypeError\<close>.
\<close>

definition put_cell :: "string list \<Rightarrow> string \<Rightarrow> cell list \<Rightarrow> cell \<Rightarrow> cell list" where
  "put_cell cols name r v =
     (if name \<in> set cols then map (\<lambda>(c, x). if c = name then v else x) (zip cols r) else r @ [v])"

definition assign_column :: "dataframe \<Rightarrow> string \<Rightarrow> cell list \<Rightarrow> dataframe" where
  "assign_column df name vs =
     \<lparr>columns = (if name \<in> set (columns df) then columns df else columns df @ [name]),
      dtypes = (if name \<in> set (columns df)
                then map (\<lambda>(c, t). if c = name then infer_dtype vs else t) (zip (columns df) (dtypes df))
                else dtypes df @ [infer_dtype vs]),
      rows = map (\<lambda>(r, v). put_cell (columns df) name r v) (zip (rows df) vs)\<rparr>"

definition get_column :: "dataframe \<Rightarrow> string \<Rightarrow> py_error + cell list" where
  "get_column df name =
     (if name \<in> set (columns df) then Inr (map (\<lambda>r. cell_of (columns df) r name) (rows df))
      else Inl (KeyError name))"

definition drop_column :: "dataframe \<Rightarrow> string \<Rightarrow> dataframe" where
  "drop_column df name =
     \<lparr>columns = filter (\<lambda>c. c \<noteq> name) (columns df),
      dtypes = map snd (filter (\<lambda>(c, t). c \<noteq> name) (zip (columns df) (dtypes df))),
      rows = map (\<lambda>r. map snd (filter (\<lambda>(c, x). c \<noteq> name) (zip (columns df) r))) (rows df)\<rparr>"

definition series_ge :: "cell list \<Rightarrow> int \<Rightarrow> py_error + bool list" where
  "series_ge vs m =
     (if list_all (\<lambda>v. case v of Some (Num _) \<Rightarrow> True | None \<Rightarrow> True | _ \<Rightarrow> False) vs
      then Inr (map (\<lambda>v. case v of Some (Num n) \<Rightarrow> m \<le> n | _ \<Rightarrow> False) vs)
      else Inl (TypeError ''>= not supported between these operands''))"

text \<open>The \<^verbatim>\<open>if\<close>/\<^verbatim>\<open>elif\<close> chain over the aggregation name: every branch keeps the name.\<close>

definition agg_func_name :: "string \<Rightarrow> string" where
  "agg_func_name agg_func =
     (if agg_func = ''count'' then ''count''
      else if agg_func = ''sum'' then ''sum''
      else if agg_func = ''mean'' then ''mean''
      else if agg_func = ''min'' then ''min''
      else if agg_func = ''max'' then ''max''
      else agg_func)"

definition build_agg_dict :: "dataframe \<Rightarrow> (string \<times> string) list \<Rightarrow> (string \<times> string) list" where
  "build_agg_dict df aggregate_columns =
     foldl (\<lambda>agg_dict (col, agg_func).
              if col \<in> set (columns df) then AList.update col (agg_func_name agg_func) agg_dict
              else agg_dict)
       [] aggregate_columns"

text \<open>The statistics of one group: its key, then one value per entry of the dictionary.\<close>

definition stat_values :: "aggregator \<Rightarrow> dataframe \<Rightarrow> (string \<times> string) list \<Rightarrow> cell list list \<Rightarrow> cell list option" where
  "stat_values agg df agg_dict members =
     those (map (\<lambda>(col, f). agg f (map (\<lambda>r. cell_of (columns df) r col) members)) agg_dict)"

definition stat_rows ::
  "aggregator \<Rightarrow> dataframe \<Rightarrow> (string \<times> string) list \<Rightarrow> (cell list \<times> cell list list) list
     \<Rightarrow> cell list list option" where
  "stat_rows agg df agg_dict grouped =
     those (map (\<lambda>(k, members). map_option (\<lambda>vs. k @ vs) (stat_values agg df agg_dict members)) grouped)"

text \<open>\<^verbatim>\<open>grouped.size().reset_index(name='count')\<close> and \<^verbatim>\<open>grouped.agg(agg_dict).reset_index()\<close>.\<close>

definition frame_of_rows :: "string list \<Rightarrow> cell list list \<Rightarrow> dataframe" where
  "frame_of_rows cols rs =
     \<lparr>columns = cols,
      dtypes = map (\<lambda>i. infer_dtype (map (\<lambda>r. r ! i) rs)) [0 ..< length cols],
      rows = rs\<rparr>"

definition size_frame :: "string list \<Rightarrow> (cell list \<times> cell list list) list \<Rightarrow> py_error + dataframe" where
  "size_frame by_cols grouped =
     (if ''count'' \<in> set by_cols then Inl (ValueError ''cannot insert count, already exists'')
      else Inr (frame_of_rows (by_cols @ [''count''])
                  (map (\<lambda>(k, members). k @ [Some (Num (int (length members)))]) grouped)))"

definition agg_frame ::
  "aggregator \<Rightarrow> dataframe \<Rightarrow> string list \<Rightarrow> (string \<times> string) list
     \<Rightarrow> (cell list \<times> cell list list) list \<Rightarrow> py_error + dataframe" where
  "agg_frame agg df by_cols agg_dict grouped =
     (case filter (\<lambda>c. c \<in> set by_cols) (map fst agg_dict) of
        clash # _ \<Rightarrow> Inl (KeyError clash)
      | [] \<Rightarrow>
          (case stat_rows agg df agg_dict grouped of
             None \<Rightarrow> Inl (ValueError ''aggregation failed'')
           | Some rs \<Rightarrow> Inr (frame_of_rows (by_cols @ map fst agg_dict) rs)))"

definition create_aggregate_only_view ::
  "aggregator \<Rightarrow> KAnonymityChecker \<Rightarrow> dataframe \<Rightarrow> string list \<Rightarrow> (string \<times> string) list
     \<Rightarrow> int option \<Rightarrow> py_error + dataframe" where
  "create_aggregate_only_view agg self df group_by_columns aggregate_columns min_group_size =
     (let m = py_or min_group_size (k_threshold self) in
      case groupby df group_by_columns of Inl e \<Rightarrow> Inl e | Inr grouped \<Rightarrow>
        let agg_dict = build_agg_dict df aggregate_columns in
        case (if agg_dict = [] then size_frame group_by_columns grouped
              else (case agg_frame agg df group_by_columns agg_dict grouped of Inl e \<Rightarrow> Inl e
                    | Inr a \<Rightarrow> Inr (assign_column a ''_group_count'' (group_sizes grouped))))
        of Inl e \<Rightarrow> Inl e
         | Inr aggregated \<Rightarrow>
             if m \<noteq> 0 then
               (case get_column aggregated ''_group_count'' of Inl e \<Rightarrow> Inl e
                | Inr counts \<Rightarrow>
                    (case series_ge counts m of Inl e \<Rightarrow> Inl e
                     | Inr keep \<Rightarrow>
                         Inr (drop_column (boolean_index aggregated keep) ''_group_count'')))
             else Inr aggregated)"

section \<open>PII detector (\<^verbatim>\<open>src/src/pii_detection.py\<close>)\<close>

datatype PIIType = EMAIL | PHONE | SSN | CREDIT_CARD | IP_ADDRESS | PASSPORT | DRIVER_LICENSE
  | BANK_ACCOUNT | DATE_OF_BIRTH | NAME

text \<open>
  A sampled element is declared a string, but the code tests
  \<^verbatim>\<open>value and isinstance(value, str)\<close>, so the model keeps \<^verbatim>\<open>None\<close> and
  non-string elements apart.  Confidences are Python floats; the model computes them
  in exact rational arithmetic (\<open>1.2 = 6/5\<close>, \<open>1.5 = 3/2\<close>, \<open>0.9 = 9/10\<close>).
\<close>

datatype pyval = PyNone | PyStr string | PyInt int

definition truthy :: "pyval \<Rightarrow> bool" where
  "truthy v = (case v of PyNone \<Rightarrow> False | PyStr s \<Rightarrow> s \<noteq> [] | PyInt n \<Rightarrow> n \<noteq> 0)"

record PIIDetection =
  pii_type :: PIIType
  column_name :: string
  row_count :: int
  sample_values :: "pyval list"
  confidence :: rat

record PIIDetector =
  min_confidence :: rat

text \<open>
  The keys of \<^verbatim>\<open>PATTERNS\<close> in their order.  The compiled regular expressions are the
  \<^verbatim>\<open>re\<close> library's; \<^verbatim>\<open>pattern.search(s)\<close> is the parameter \<open>search\<close> of the
  detector functions.
\<close>

definition PATTERNS :: "PIIType list" where
  "PATTERNS = [EMAIL, PHONE, SSN, CREDIT_CARD, IP_ADDRESS, DATE_OF_BIRTH]"

definition COMMON_NAMES :: "string list" where
  "COMMON_NAMES = [''john'', ''jane'', ''smith'', ''johnson'', ''williams'', ''brown'', ''jones'',
     ''garcia'', ''miller'', ''davis'', ''rodriguez'', ''martinez'', ''hernandez'']"

text \<open>\<^verbatim>\<open>str.lower\<close>, \<^verbatim>\<open>str.split()\<close> and the substring test \<^verbatim>\<open>in\<close>, on ASCII text.\<close>

definition lower_char :: "char \<Rightarrow> char" where
  "lower_char c = (let n = (of_char c :: nat) in if 65 \<le> n \<and> n \<le> 90 then char_of (n + 32) else c)"

definition lower :: "string \<Rightarrow> string" where
  "lower s = map lower_char s"

definition is_space :: "char \<Rightarrow> bool" where
  "is_space c = (let n = (of_char c :: nat) in n = 32 \<or> (9 \<le> n \<and> n \<le> 13))"

fun split_aux :: "string \<Rightarrow> string \<Rightarrow> string list" where
  "split_aux cur [] = (if cur = [] then [] else [cur])"
| "split_aux cur (c # cs) =
     (if is_space c then (if cur = [] then split_aux [] cs else cur # split_aux [] cs)
      else split_aux (cur @ [c]) cs)"

definition py_split :: "string \<Rightarrow> string list" where
  "py_split s = split_aux [] s"

fun is_substring :: "string \<Rightarrow> string \<Rightarrow> bool" where
  "is_substring p [] = (p = [])"
| "is_substring p (c # cs) = (take (length p) (c # cs) = p \<or> is_substring p cs)"

definition pattern_matches :: "(PIIType \<Rightarrow> string \<Rightarrow> bool) \<Rightarrow> PIIType \<Rightarrow> pyval list \<Rightarrow> pyval list" where
  "pattern_matches search t sample =
     filter (\<lambda>v. case v of PyStr s \<Rightarrow> s \<noteq> [] \<and> search t s | _ \<Rightarrow> False) sample"

definition is_name_value :: "pyval \<Rightarrow> bool" where
  "is_name_value v =
     (case v of PyStr s \<Rightarrow> s \<noteq> [] \<and> list_ex (\<lambda>word. word \<in> set COMMON_NAMES) (py_split (lower s))
      | _ \<Rightarrow> False)"

definition detect_names :: "PIIDetector \<Rightarrow> string \<Rightarrow> pyval list \<Rightarrow> PIIDetection list" where
  "detect_names self col sample =
     (let name_indicators = [''name'', ''firstname'', ''lastname'', ''fullname'', ''customer_name''] in
      if list_ex (\<lambda>indicator. is_substring indicator (lower col)) name_indicators then
        (let name_count = length (filter is_name_value sample) in
         if 0 < name_count then
           (let conf = min (of_nat name_count / of_nat (length sample) * (3 / 2)) (9 / 10) in
            if min_confidence self \<le> conf then
              [\<lparr>pii_type = NAME, column_name = col, row_count = int (length sample),
                sample_values = filter truthy (take 5 sample), confidence = conf\<rparr>]
            else [])
         else [])
      else [])"

definition detect_pattern ::
  "(PIIType \<Rightarrow> string \<Rightarrow> bool) \<Rightarrow> PIIDetector \<Rightarrow> string \<Rightarrow> pyval list \<Rightarrow> int option
     \<Rightarrow> PIIType \<Rightarrow> PIIDetection list" where
  "detect_pattern search self col sample full_data_size t =
     (let sample_size = length sample;
          matches = pattern_matches search t sample in
      if matches \<noteq> [] then
        (let match_ratio = of_nat (length matches) / of_nat sample_size;
             conf = min (match_ratio * (6 / 5)) 1 in
         if min_confidence self \<le> conf then
           [\<lparr>pii_type = t, column_name = col,
             row_count = (case full_data_size of None \<Rightarrow> int sample_size
                          | Some n \<Rightarrow> if n = 0 then int sample_size else n),
             sample_values = take 5 matches, confidence = conf\<rparr>]
         else [])
      else [])"

definition detect_pii_in_column ::
  "(PIIType \<Rightarrow> string \<Rightarrow> bool) \<Rightarrow> PIIDetector \<Rightarrow> string \<Rightarrow> pyval list \<Rightarrow> int option
     \<Rightarrow> PIIDetection list" where
  "detect_pii_in_column search self col sample full_data_size =
     (if length sample = 0 then []
      else concat (map (detect_pattern search self col sample full_data_size) PATTERNS)
           @ detect_names self col sample)"

section \<open>Pseudonymizer (\<^verbatim>\<open>src/src/pseudonymization.py\<close>)\<close>

text \<open>
  The cryptographic primitives are those of the \<^verbatim>\<open>base64\<close>, \<^verbatim>\<open>hashlib\<close> and
  \<^verbatim>\<open>cryptography\<close> libraries; they are the fields of a record the functions take as a
  parameter.  A decoder returns \<open>None\<close> where the library raises.  Bytes and ASCII text
  are both \<open>string\<close>, so \<^verbatim>\<open>encode\<close> and \<^verbatim>\<open>decode\<close> are the identity.  Fernet
  encryption draws a fresh initialisation vector and the clock: the model passes it the
  counter \<open>entropy\<close> of the instance, advanced at every encryption.  The source
  imports the key derivation under the name \<^verbatim>\<open>PBKDF2\<close>; \<open>pbkdf2_sha256 salt n\<close> is
  the derivation of 32 bytes with SHA-256, that salt and \<open>n\<close> iterations.
\<close>

record crypto =
  urlsafe_b64decode :: "string \<Rightarrow> string option"
  urlsafe_b64encode :: "string \<Rightarrow> string"
  fromhex :: "string \<Rightarrow> string option"
  pbkdf2_sha256 :: "string \<Rightarrow> nat \<Rightarrow> string \<Rightarrow> string"
  sha256 :: "string \<Rightarrow> string"
  fernet_encrypt :: "string \<Rightarrow> nat \<Rightarrow> string \<Rightarrow> string"
  fernet_decrypt :: "string \<Rightarrow> string \<Rightarrow> string option"





record Pseudonymizer =
  key :: string
  mapping_cache :: "(string \<times> string) list"
  entropy :: nat


text \<open>
  \<^verbatim>\<open>pseudonymize\<close> returns the token and the instance after the call.  A value that is
  empty or no string is returned as it is.  In deterministic mode a cached token is
  returned; otherwise the value is encrypted under the main key, and in deterministic
  mode encrypted again under the per-value key, encoded and cached.
\<close>

definition pseudonymize :: "crypto \<Rightarrow> Pseudonymizer \<Rightarrow> pyval \<Rightarrow> bool \<Rightarrow> pyval \<times> Pseudonymizer" where
  "pseudonymize lib self v deterministic =
     (case v of
        PyStr s \<Rightarrow>
          if s = [] then (v, self)
          else
            (case (if deterministic then map_of (mapping_cache self) s else None) of
               Some cached \<Rightarrow> (PyStr cached, self)
             | None \<Rightarrow>
                 let encrypted = fernet_encrypt lib (key self) (entropy self) s;
                     self1 = self\<lparr>entropy := entropy self + 1\<rparr>
                 in if deterministic then
                      (let hash_value = take 16 (sha256 lib s);
                           det_key = urlsafe_b64encode lib (pbkdf2_sha256 lib hash_value 1000 s);
                           pseudonymized =
                             urlsafe_b64encode lib (fernet_encrypt lib det_key (entropy self1) s)
                       in (PyStr pseudonymized,
                           self1\<lparr>entropy := entropy self1 + 1,
                                 mapping_cache := AList.update s pseudonymized (mapping_cache self1)\<rparr>))
                    else (PyStr encrypted, self1))
      | _ \<Rightarrow> (v, self))"

text \<open>
  \<^verbatim>\<open>depseudonymize\<close>: decryption under the main key, then the reverse search of the
  cache in insertion order, then the error.
\<close>

definition depseudonymize :: "crypto \<Rightarrow> Pseudonymizer \<Rightarrow> string \<Rightarrow> py_error + string" where
  "depseudonymize lib self pseudonymized_value =
     (if pseudonymized_value = [] then Inr pseudonymized_value
      else
        (case fernet_decrypt lib (key self) pseudonymized_value of
           Some decrypted \<Rightarrow> Inr decrypted
         | None \<Rightarrow>
             (case find (\<lambda>(original, pseudonym). pseudonym = pseudonymized_value) (mapping_cache self) of
                Some (original, pseudonym) \<Rightarrow> Inr original
              | None \<Rightarrow> Inl (ValueError (''Cannot depseudonymize value: '' @ pseudonymized_value)))))"

text \<open>A sequence of \<^verbatim>\<open>pseudonymize\<close> calls on one instance, results discarded.\<close>

fun run_calls :: "crypto \<Rightarrow> Pseudonymizer \<Rightarrow> (pyval \<times> bool) list \<Rightarrow> Pseudonymizer" where
  "run_calls lib self [] = self"
| "run_calls lib self ((v, deterministic) # calls) =
     run_calls lib (snd (pseudonymize lib self v deterministic)) calls"

section \<open>Notions the properties are stated with\<close>

text \<open>
  The quasi-identifier tuple of a row, and the size of a group: the number of rows of the
  batch with that tuple.  A tuple is \<open>complete\<close> when none of its values is missing;
  \<open>complete_groups\<close> are the complete tuples that occur.  \<open>smallest_group_size\<close>
  and \<open>rows_of_groups_at_least\<close> follow the specification's wording, in which every
  distinct tuple of (nullable) values is a group.
\<close>

definition qi_tuple :: "dataframe \<Rightarrow> string list \<Rightarrow> cell list \<Rightarrow> cell list" where
  "qi_tuple df qi r = map (cell_of (columns df) r) qi"

definition group_size :: "dataframe \<Rightarrow> string list \<Rightarrow> cell list \<Rightarrow> nat" where
  "group_size df qi t = length (filter (\<lambda>r. qi_tuple df qi r = t) (rows df))"

definition complete_groups :: "dataframe \<Rightarrow> string list \<Rightarrow> cell list set" where
  "complete_groups df qi = {t \<in> set (map (qi_tuple df qi) (rows df)). complete t}"



text \<open>The dictionary reported for a vulnerable group: its tuple by column, then its count.\<close>

definition combo_dict :: "string list \<Rightarrow> cell list \<Rightarrow> nat \<Rightarrow> (string \<times> cell) list" where
  "combo_dict qi t n = zip qi t @ [(''count'', Some (Num (int n)))]"

text \<open>The target minimum of a suppression: the given one, by default the threshold.\<close>

definition target_minimum :: "KAnonymityChecker \<Rightarrow> int option \<Rightarrow> int" where
  "target_minimum self min_group_size = (case min_group_size of None \<Rightarrow> k_threshold self | Some m \<Rightarrow> m)"

subsection \<open>Example batches\<close>

text \<open>
  \<open>census\<close> is the specification's example with groups of sizes 2, 5, 5 and 8;
  the other batches hold a missing quasi-identifier value.
\<close>

definition text_rows :: "(nat \<times> string) list \<Rightarrow> cell list list" where
  "text_rows gs = concat (map (\<lambda>(n, s). replicate n [Some (Text s)]) gs)"

definition census :: dataframe where
  "census = \<lparr>columns = [''zip''], dtypes = [Object],
             rows = text_rows [(2, ''a''), (5, ''b''), (5, ''c''), (8, ''d'')]\<rparr>"



definition ages :: dataframe where
  "ages = \<lparr>columns = [''age'', ''city''], dtypes = [Numeric, Object],
            rows = [[Some (Num 31), Some (Text ''x'')], [Some (Num 35), Some (Text ''y'')],
                    [Some (Num 38), None], [Some (Num 47), Some (Text ''x'')]]\<rparr>"

text \<open>
  \<open>visits\<close> has a city with three rows, one with a single row and a row without a
  city; the only column of \<open>tagged\<close> bears the name the view gives its count column.
\<close>

definition visits :: dataframe where
  "visits = \<lparr>columns = [''city'', ''spend''], dtypes = [Object, Numeric],
      rows = [[Some (Text ''x''), Some (Num 10)], [Some (Text ''x''), Some (Num 20)],
              [Some (Text ''x''), Some (Num 5)], [Some (Text ''y''), Some (Num 7)],
              [None, Some (Num 1)]]\<rparr>"

definition tagged :: dataframe where
  "tagged = \<lparr>columns = [''_group_count''], dtypes = [Numeric], rows = [[Some (Num 7)]]\<rparr>"

text \<open>
  An aggregator for the examples: \<^verbatim>\<open>count\<close> of the values that are not missing and
  \<^verbatim>\<open>sum\<close> over numbers; any other name, and a sum over text, raises.
\<close>

definition agg_basic :: aggregator where
  "agg_basic f vs =
     (if f = ''count'' then Some (Some (Num (int (length (filter (\<lambda>v. v \<noteq> None) vs)))))
      else if f = ''sum'' then
        (if list_all (\<lambda>v. case v of Some (Num _) \<Rightarrow> True | None \<Rightarrow> True | _ \<Rightarrow> False) vs
         then Some (Some (Num (sum_list (map (\<lambda>v. case v of Some (Num n) \<Rightarrow> n | _ \<Rightarrow> 0) vs))))
         else None)
      else None)"

subsection \<open>Detector notions and samples\<close>

text \<open>
  The confidence of a pattern over a sample: the share of sampled values that are non-empty
  strings matching the pattern, times 1.2, capped at 1.  (No pattern of the registry
  matches the empty string, so these are the non-null strings that match.)
  \<open>contains_at\<close> and \<open>no_match\<close> stand in for the regular-expression search on the
  concrete samples below.
\<close>

definition match_confidence :: "(PIIType \<Rightarrow> string \<Rightarrow> bool) \<Rightarrow> PIIType \<Rightarrow> pyval list \<Rightarrow> rat" where
  "match_confidence search t sample =
     min (of_nat (length (pattern_matches search t sample)) / of_nat (length sample) * (6 / 5)) 1"

definition contains_at :: "PIIType \<Rightarrow> string \<Rightarrow> bool" where
  "contains_at t s = (t = EMAIL \<and> CHR ''@'' \<in> set s)"

definition no_match :: "PIIType \<Rightarrow> string \<Rightarrow> bool" where
  "no_match t s = False"

definition mostly_emails :: "pyval list" where
  "mostly_emails = map PyStr [''a@x.io'', ''b@x.io'', ''c@x.io'', ''d@x.io'', ''e@x.io'', ''f@x.io'',
      ''g@x.io'', ''h@x.io'', ''none'', ''n/a'']"


subsection \<open>A stand-in for the cryptographic libraries\<close>

text \<open>
  Used only to run the pseudonymizer on concrete inputs: an encoding that prefixes a tag,
  a key derivation that pads to 32 bytes, and a cipher whose token shows the entropy it
  drew and that any key decrypts.
\<close>

definition example_crypto :: crypto where
  "example_crypto =
     \<lparr>urlsafe_b64decode = (\<lambda>s. if take 4 s = ''b64:'' then Some (drop 4 s) else None),
      urlsafe_b64encode = (\<lambda>b. ''b64:'' @ b),
      fromhex = (\<lambda>s. if list_all (\<lambda>c. c \<in> set ''0123456789abcdefABCDEF'') s \<and> even (length s)
                       then Some (take (length s div 2) s) else None),
      pbkdf2_sha256 = (\<lambda>salt n pw. take 32 (pw @ salt @ replicate 32 (CHR ''0''))),
      sha256 = (\<lambda>b. take 32 (b @ replicate 32 (CHR ''#''))),
      fernet_encrypt = (\<lambda>k n m. CHR ''g'' # replicate n (CHR ''+'') @ CHR '':'' # m),
      fernet_decrypt = (\<lambda>k t. case t of [] \<Rightarrow> None
                          | c # rest \<Rightarrow>
                              if c = CHR ''g'' then
                                (case dropWhile (\<lambda>x. x = CHR ''+'') rest of [] \<Rightarrow> None
                                 | d # m \<Rightarrow> if d = CHR '':'' then Some m else None)
                              else None)\<rparr>"

definition example_instance :: Pseudonymizer where
  "example_instance = \<lparr>key = ''b64:correct horsegdpr_compliance_sal'', mapping_cache = [], entropy = 0\<rparr>"

section \<open>Properties of the K-anonymity engine\<close>

subsection \<open>Dictionaries, counts and masks\<close>






lemma select_columns_missing:
  "\<not> set cs \<subseteq> set (columns df) \<Longrightarrow> \<exists>msg. select_columns df cs = Inl (KeyError msg)"
proof -
  assume "\<not> set cs \<subseteq> set (columns df)"
  then have "filter (\<lambda>c. c \<notin> set (columns df)) cs \<noteq> []" by (auto simp: filter_empty_conv)
  then obtain x xs where "filter (\<lambda>c. c \<notin> set (columns df)) cs = x # xs" by (cases "filter (\<lambda>c. c \<notin> set (columns df)) cs") auto
  then show ?thesis by (simp add: select_columns_def)
qed









lemma columns_boolean_index [simp]: "columns (boolean_index df b) = columns df"
  by (simp add: boolean_index_def)









lemma finite_complete_groups [simp]: "finite (complete_groups df qi)"
  by (simp add: complete_groups_def)

subsection \<open>The check\<close>




subsection \<open>Suppression\<close>




subsection \<open>The ensure pipeline\<close>

lemma columns_map_column [simp]: "columns (map_column df c d f) = columns df"
  by (simp add: map_column_def)

lemma generalize_ok:
  "column \<in> set (columns df) \<Longrightarrow> \<exists>g. generalize df column level = Inr g \<and> columns g = columns df"
  by (simp add: generalize_def)

lemma apply_generalization_fold:
  "\<exists>g. foldl (\<lambda>acc (column, level).
                   case acc of Inl e \<Rightarrow> Inl e
                   | Inr result_df \<Rightarrow>
                       if column \<in> set (columns result_df) then generalize result_df column level
                       else Inr result_df)
            (Inr d) strategy = Inr g \<and> columns g = columns d"
proof (induction strategy arbitrary: d)
  case Nil
  then show ?case by simp
next
  case (Cons p strategy)
  obtain column level where p: "p = (column, level)" by (cases p)
  show ?case
  proof (cases "column \<in> set (columns d)")
    case True
    from generalize_ok[OF True, of level] obtain g' where
      g': "generalize d column level = Inr g'" "columns g' = columns d" by blast
    from Cons.IH[of g'] show ?thesis by (simp add: p True g')
  next
    case False
    from Cons.IH[of d] show ?thesis by (simp add: p False)
  qed
qed

lemma apply_generalization_ok:
  "\<exists>g. apply_generalization df strategy = Inr g \<and> columns g = columns df"
  using apply_generalization_fold[of df]
  by (cases strategy) (simp_all add: apply_generalization_def)

lemma check_k_anonymity_missing:
  assumes "\<not> set qi \<subseteq> set (columns df)"
  shows "check_k_anonymity self df qi =
           Inr \<lparr>k_value = 0, is_compliant = False, vulnerable_combinations = [],
                recommendations = [''Missing columns: '' @
                  repr_str_list (filter (\<lambda>col. col \<notin> set (columns df)) qi)]\<rparr>"
proof -
  from assms have "filter (\<lambda>col. col \<notin> set (columns df)) qi \<noteq> []"
    by (auto simp: filter_empty_conv)
  then show ?thesis by (simp add: check_k_anonymity_def Let_def)
qed

lemma suppress_rows_missing:
  assumes "\<not> set qi \<subseteq> set (columns df)"
  shows "\<exists>msg. suppress_rows self df qi mgs = Inl (KeyError msg)"
proof -
  from select_columns_missing[OF assms] obtain msg where "select_columns df qi = Inl (KeyError msg)"
    by blast
  then show ?thesis by (simp add: suppress_rows_def Let_def)
qed

text \<open>
  Claim C9.  With a quasi-identifier column absent from the batch, the check returns
  \<open>k = 0\<close>, no compliance and the recommendation naming the missing columns (lemma
  \<open>check_k_anonymity_missing\<close>).  The ensure pipeline then calls suppression, because the
  check did not pass, and \<^verbatim>\<open>suppress_rows\<close> indexes the batch with the absent column
  without a guard of its own: with suppression enabled \<^verbatim>\<open>ensure_k_anonymity\<close> raises
  \<^verbatim>\<open>KeyError\<close> on every such input, whatever the generalisation strategy.
\<close>

theorem ensure_k_anonymity_missing_column_raises:
  assumes "\<not> set qi \<subseteq> set (columns df)"
  shows "\<exists>msg. ensure_k_anonymity self df qi strategy True = Inl (KeyError msg)"
proof -
  from apply_generalization_ok[of df strategy] obtain g where
    g: "apply_generalization df strategy = Inr g" "columns g = columns df" by blast
  from assms g have miss: "\<not> set qi \<subseteq> set (columns g)" by simp
  from suppress_rows_missing[OF miss, of self None] obtain msg where
    "suppress_rows self g qi None = Inl (KeyError msg)" by blast
  then show ?thesis
    by (simp add: ensure_k_anonymity_def g check_k_anonymity_missing[OF miss])
qed

text \<open>
  On a batch with the columns \<open>age\<close> and \<open>city\<close> and the quasi-identifiers
  \<open>age\<close> and \<open>zip\<close>: the check degrades as documented, the pipeline raises.
\<close>

theorem ensure_k_anonymity_missing_column_raises_witness:
  "\<not> set [''age'', ''zip''] \<subseteq> set (columns ages) \<and>
   ensure_k_anonymity \<lparr>k_threshold = 5\<rparr> ages [''age'', ''zip''] None True =
     Inl (KeyError (''['' @ [CHR 0x27] @ ''zip'' @ [CHR 0x27] @ ''] not in index'')) \<and>
   check_k_anonymity \<lparr>k_threshold = 5\<rparr> ages [''age'', ''zip''] =
     Inr \<lparr>k_value = 0, is_compliant = False, vulnerable_combinations = [],
          recommendations = [''Missing columns: ['' @ [CHR 0x27] @ ''zip'' @ [CHR 0x27] @ '']'']\<rparr>"
proof -
  have h: "\<not> set [''age'', ''zip''] \<subseteq> set (columns ages)" by (simp add: ages_def)
  have run: "ensure_k_anonymity \<lparr>k_threshold = 5\<rparr> ages [''age'', ''zip''] None True =
     Inl (KeyError (''['' @ [CHR 0x27] @ ''zip'' @ [CHR 0x27] @ ''] not in index''))"
    "check_k_anonymity \<lparr>k_threshold = 5\<rparr> ages [''age'', ''zip''] =
     Inr \<lparr>k_value = 0, is_compliant = False, vulnerable_combinations = [],
          recommendations = [''Missing columns: ['' @ [CHR 0x27] @ ''zip'' @ [CHR 0x27] @ '']'']\<rparr>"
    by code_simp+
  show ?thesis
    using ensure_k_anonymity_missing_column_raises[OF h, of "\<lparr>k_threshold = 5\<rparr>" None] h run
    by simp
qed







section \<open>Properties of the aggregate-only view\<close>

text \<open>
  Claim C3.  Without aggregations the view is \<^verbatim>\<open>grouped.size().reset_index(name='count')\<close>:
  its count column is named \<^verbatim>\<open>count\<close>, while the filter that follows reads
  \<^verbatim>\<open>_group_count\<close>.  When the batch is grouped by a column of that name the filter
  compares the group's key with the minimum and then drops the key: the group with key 7
  holds one raw row and its count is emitted under the minimum 5.  On an ordinary batch
  the same call raises \<^verbatim>\<open>KeyError\<close>.  Both hold for every aggregator.
\<close>

theorem create_aggregate_only_view_emits_small_group:
  "well_formed tagged \<and>
   create_aggregate_only_view agg \<lparr>k_threshold = 5\<rparr> tagged [''_group_count''] [] None =
     Inr \<lparr>columns = [''count''], dtypes = [Numeric], rows = [[Some (Num 1)]]\<rparr> \<and>
   group_size tagged [''_group_count''] [Some (Num 7)] = 1 \<and>
   create_aggregate_only_view agg \<lparr>k_threshold = 2\<rparr> visits [''city''] [] None =
     Inl (KeyError ''_group_count'')"
  by code_simp

section \<open>Properties of the PII detector\<close>

lemma detect_pattern_unfold:
  "detect_pattern search self col sample full t =
     (if pattern_matches search t sample \<noteq> [] then
        (if min_confidence self \<le> match_confidence search t sample then
           [\<lparr>pii_type = t, column_name = col,
             row_count = (case full of None \<Rightarrow> int (length sample)
                          | Some n \<Rightarrow> if n = 0 then int (length sample) else n),
             sample_values = take 5 (pattern_matches search t sample),
             confidence = match_confidence search t sample\<rparr>]
         else [])
      else [])"
  unfolding detect_pattern_def match_confidence_def Let_def by (rule refl)

lemma pii_type_detect_pattern: "d \<in> set (detect_pattern search self col sample full t) \<Longrightarrow> pii_type d = t"
  by (auto simp: detect_pattern_unfold split: if_splits)

lemma pii_type_detect_names: "d \<in> set (detect_names self col sample) \<Longrightarrow> pii_type d = NAME"
  by (auto simp: detect_names_def Let_def split: if_splits)






text \<open>
  Claim C8.  The name detector keeps the first five sampled values that are truthy, matched
  or not, and counts the sample instead of the column: on a column of 1000 rows sampled
  as \<open>zzz\<close> and \<open>john smith\<close> the classification carries \<open>zzz\<close>, which holds no
  reference name, and the row count 2.  The pattern detector keeps
  \<^verbatim>\<open>matches[:5]\<close> and the full size.
\<close>

theorem detect_names_unmatched_sample_and_sample_count:
  "detect_pii_in_column no_match \<lparr>min_confidence = 7 / 10\<rparr> ''customer_name''
       [PyStr ''zzz'', PyStr ''john smith''] (Some 1000) =
     [\<lparr>pii_type = NAME, column_name = ''customer_name'', row_count = 2,
       sample_values = [PyStr ''zzz'', PyStr ''john smith''], confidence = 3 / 4\<rparr>] \<and>
   \<not> is_name_value (PyStr ''zzz'')"
  by code_simp

section \<open>Properties of the pseudonymizer\<close>

subsection \<open>Key preparation\<close>






subsection \<open>Deterministic tokens\<close>

lemma pseudonymize_hit:
  "s \<noteq> [] \<Longrightarrow> map_of (mapping_cache self) s = Some t \<Longrightarrow>
   pseudonymize lib self (PyStr s) True = (PyStr t, self)"
  by (simp add: pseudonymize_def)

lemma pseudonymize_caches:
  assumes "s \<noteq> []" and "pseudonymize lib self (PyStr s) True = (tok, self1)"
  shows "\<exists>t. tok = PyStr t \<and> map_of (mapping_cache self1) s = Some t"
proof (cases "map_of (mapping_cache self) s")
  case None
  with assms show ?thesis
    by (auto simp: pseudonymize_def Let_def update_conv')
next
  case (Some t)
  with assms show ?thesis by (auto simp: pseudonymize_def)
qed

lemma pseudonymize_keeps_entry:
  assumes "map_of (mapping_cache self) s = Some t"
  shows "map_of (mapping_cache (snd (pseudonymize lib self v d))) s = Some t"
proof (cases v)
  case (PyStr u)
  show ?thesis
  proof (cases "u = [] \<or> \<not> d \<or> map_of (mapping_cache self) u \<noteq> None")
    case True
    with assms PyStr show ?thesis
      by (auto simp: pseudonymize_def Let_def split: option.splits)
  next
    case False
    then have "u \<noteq> s" using assms by auto
    with False assms PyStr show ?thesis
      by (auto simp: pseudonymize_def Let_def update_conv')
  qed
qed (use assms in \<open>simp_all add: pseudonymize_def\<close>)

lemma run_calls_keeps_entry:
  "map_of (mapping_cache self) s = Some t \<Longrightarrow>
   map_of (mapping_cache (run_calls lib self calls)) s = Some t"
proof (induction calls arbitrary: self)
  case Nil
  then show ?case by simp
next
  case (Cons c calls)
  obtain v d where c: "c = (v, d)" by (cases c)
  from Cons.prems have "map_of (mapping_cache (snd (pseudonymize lib self v d))) s = Some t"
    by (rule pseudonymize_keeps_entry)
  from Cons.IH[OF this] show ?case by (simp add: c)
qed

lemma pseudonymize_keeps_key: "key (snd (pseudonymize lib self v d)) = key self"
  by (cases v) (auto simp: pseudonymize_def Let_def split: option.splits)

lemma run_calls_keeps_key: "key (run_calls lib self calls) = key self"
proof (induction calls arbitrary: self)
  case Nil
  then show ?case by simp
next
  case (Cons c calls)
  obtain v d where c: "c = (v, d)" by (cases c)
  from Cons.IH[of "snd (pseudonymize lib self v d)"] show ?case
    by (simp add: c pseudonymize_keeps_key)
qed

text \<open>
  Claim C5.  For a non-empty string, a deterministic call returns a token and leaves the
  value mapped to that token in the cache of the instance; the next deterministic call on
  the value, and the one after any sequence of further \<^verbatim>\<open>pseudonymize\<close> calls on the
  instance (any values, either mode), returns the same token from the cache and leaves
  the instance as it is.
\<close>

theorem pseudonymize_deterministic_is_stable:
  assumes "s \<noteq> []" and "pseudonymize lib self (PyStr s) True = (tok, self1)"
  shows "\<exists>t. tok = PyStr t \<and> map_of (mapping_cache self1) s = Some t \<and>
           pseudonymize lib self1 (PyStr s) True = (PyStr t, self1) \<and>
           pseudonymize lib (run_calls lib self1 calls) (PyStr s) True =
             (PyStr t, run_calls lib self1 calls)"
proof -
  from pseudonymize_caches[OF assms] obtain t where
    t: "tok = PyStr t" and c: "map_of (mapping_cache self1) s = Some t" by blast
  from pseudonymize_hit[OF assms(1) c] have again: "pseudonymize lib self1 (PyStr s) True = (PyStr t, self1)" .
  from run_calls_keeps_entry[OF c]
  have "map_of (mapping_cache (run_calls lib self1 calls)) s = Some t" .
  from pseudonymize_hit[OF assms(1) this]
  have later: "pseudonymize lib (run_calls lib self1 calls) (PyStr s) True =
             (PyStr t, run_calls lib self1 calls)" .
  from t c again later show ?thesis by blast
qed

text \<open>
  On the stand-in library: the first call caches the token of \<open>alice\<close>; the second
  call, and a call after three other calls, return it.
\<close>

theorem pseudonymize_deterministic_is_stable_witness:
  "''alice'' \<noteq> [] \<and>
   pseudonymize example_crypto example_instance (PyStr ''alice'') True =
     (PyStr ''b64:g+:alice'',
      example_instance\<lparr>mapping_cache := [(''alice'', ''b64:g+:alice'')], entropy := 2\<rparr>) \<and>
   pseudonymize example_crypto
       (example_instance\<lparr>mapping_cache := [(''alice'', ''b64:g+:alice'')], entropy := 2\<rparr>)
       (PyStr ''alice'') True =
     (PyStr ''b64:g+:alice'',
      example_instance\<lparr>mapping_cache := [(''alice'', ''b64:g+:alice'')], entropy := 2\<rparr>) \<and>
   fst (pseudonymize example_crypto
         (run_calls example_crypto
            (example_instance\<lparr>mapping_cache := [(''alice'', ''b64:g+:alice'')], entropy := 2\<rparr>)
            [(PyStr ''bob'', True), (PyStr ''alice'', False), (PyNone, True)])
         (PyStr ''alice'') True) = PyStr ''b64:g+:alice''"
proof -
  have h1: "''alice'' \<noteq> []" by simp
  have h2: "pseudonymize example_crypto example_instance (PyStr ''alice'') True =
     (PyStr ''b64:g+:alice'',
      example_instance\<lparr>mapping_cache := [(''alice'', ''b64:g+:alice'')], entropy := 2\<rparr>)"
    by (simp add: pseudonymize_def example_crypto_def example_instance_def Let_def)
  from pseudonymize_deterministic_is_stable[OF h1 h2,
      of "[(PyStr ''bob'', True), (PyStr ''alice'', False), (PyNone, True)]"]
  show ?thesis using h1 h2 by auto
qed

subsection \<open>Reversal\<close>

text \<open>
  Claim C6.  Given that Fernet decryption under a key inverts encryption under that key and
  that a Fernet token is never empty, for a non-empty string \<^verbatim>\<open>depseudonymize\<close> returns
  the original value from the token that a non-deterministic \<^verbatim>\<open>pseudonymize\<close> produced,
  on the instance after that call and after any further \<^verbatim>\<open>pseudonymize\<close> calls on it.
\<close>

theorem depseudonymize_inverts_nondeterministic_pseudonymize:
  assumes "s \<noteq> []"
    and roundtrip: "\<And>k n m. fernet_decrypt lib k (fernet_encrypt lib k n m) = Some m"
    and nonempty: "\<And>k n m. fernet_encrypt lib k n m \<noteq> []"
  shows "\<exists>t self1. pseudonymize lib self (PyStr s) False = (PyStr t, self1) \<and>
           depseudonymize lib self1 t = Inr s \<and>
           depseudonymize lib (run_calls lib self1 calls) t = Inr s"
proof -
  define t where "t = fernet_encrypt lib (key self) (entropy self) s"
  define self1 where "self1 = self\<lparr>entropy := entropy self + 1\<rparr>"
  have p: "pseudonymize lib self (PyStr s) False = (PyStr t, self1)"
    using assms(1) by (simp add: pseudonymize_def Let_def t_def self1_def)
  have k: "key self1 = key self" by (simp add: self1_def)
  have d: "depseudonymize lib x t = Inr s" if "key x = key self" for x
    using that roundtrip nonempty by (simp add: depseudonymize_def t_def)
  from p d[OF k] d[of "run_calls lib self1 calls"] k show ?thesis
    by (simp add: run_calls_keeps_key)
qed

lemma example_crypto_roundtrip:
  "fernet_decrypt example_crypto k (fernet_encrypt example_crypto k n m) = Some m"
proof -
  have "dropWhile (\<lambda>x. x = CHR ''+'') (replicate n (CHR ''+'') @ CHR '':'' # m) = CHR '':'' # m"
    by (induction n) simp_all
  then show ?thesis by (simp add: example_crypto_def)
qed

lemma example_crypto_nonempty: "fernet_encrypt example_crypto k n m \<noteq> []"
  by (simp add: example_crypto_def)

text \<open>The stand-in cipher meets both hypotheses; the token of \<open>alice\<close> is reversed.\<close>

theorem depseudonymize_inverts_nondeterministic_pseudonymize_witness:
  "''alice'' \<noteq> [] \<and>
   (\<forall>k n m. fernet_decrypt example_crypto k (fernet_encrypt example_crypto k n m) = Some m) \<and>
   (\<forall>k n m. fernet_encrypt example_crypto k n m \<noteq> []) \<and>
   pseudonymize example_crypto example_instance (PyStr ''alice'') False =
     (PyStr ''g:alice'', example_instance\<lparr>entropy := 1\<rparr>) \<and>
   depseudonymize example_crypto (example_instance\<lparr>entropy := 1\<rparr>) ''g:alice'' = Inr ''alice''"
proof -
  have h1: "''alice'' \<noteq> []" by simp
  have p: "pseudonymize example_crypto example_instance (PyStr ''alice'') False =
     (PyStr ''g:alice'', example_instance\<lparr>entropy := 1\<rparr>)"
    by (simp add: pseudonymize_def example_crypto_def example_instance_def Let_def)
  from depseudonymize_inverts_nondeterministic_pseudonymize[OF h1 example_crypto_roundtrip
      example_crypto_nonempty, of example_instance "[]"]
  have "depseudonymize example_crypto (example_instance\<lparr>entropy := 1\<rparr>) ''g:alice'' = Inr ''alice''"
    using p by simp
  with h1 p show ?thesis
    using example_crypto_roundtrip example_crypto_nonempty by simp
qed

section \<open>The aggregate-only view on ordinary column names\<close>

lemma groupby_char:
  assumes "groupby df gb = Inr G"
  shows "distinct gb \<and> gb \<noteq> [] \<and> set gb \<subseteq> set (columns df) \<and>
         G = map (\<lambda>k. (k, filter (\<lambda>r. qi_tuple df gb r = k) (rows df)))
               (remdups (filter complete (map (qi_tuple df gb) (rows df))))"
proof -
  have q: "(\<lambda>r. map (cell_of (columns df) r) gb) = qi_tuple df gb"
    by (simp add: qi_tuple_def fun_eq_iff)
  from assms have f: "filter (\<lambda>c. c \<notin> set (columns df)) gb = []"
    by (auto simp: groupby_def split: list.splits)
  then have sub: "set gb \<subseteq> set (columns df)" by (auto simp: filter_empty_conv)
  from assms f show ?thesis
    using sub by (auto simp: groupby_def qi_tuple_def[abs_def] split: if_splits)
qed

lemma groupby_member:
  assumes "groupby df gb = Inr G" and "(k, ms) \<in> set G"
  shows "k \<in> complete_groups df gb \<and> length k = length gb \<and>
         ms = filter (\<lambda>r. qi_tuple df gb r = k) (rows df) \<and> length ms = group_size df gb k"
  using groupby_char[OF assms(1)] assms(2)
  by (auto simp: complete_groups_def group_size_def qi_tuple_def)

lemma those_map_Some:
  "those (map f xs) = Some ys \<Longrightarrow> ys = map (\<lambda>x. the (f x)) xs \<and> (\<forall>x \<in> set xs. f x \<noteq> None)"
proof (induction xs arbitrary: ys)
  case Nil
  then show ?case by simp
next
  case (Cons x xs)
  then show ?case by (auto split: option.splits)
qed

lemma stat_values_length:
  "stat_values agg df agg_dict ms = Some vs \<Longrightarrow> length vs = length agg_dict"
  unfolding stat_values_def by (drule those_map_Some) simp

lemma target_minimum_le:
  assumes "m = py_or mgs (k_threshold self)" and "m = 0 \<or> m \<le> int n"
  shows "target_minimum self mgs \<le> int n"
  using assms by (auto simp: py_or_def target_minimum_def split: option.splits if_splits)

lemma rows_assign_column:
  "rows (assign_column a name vs) = map (\<lambda>(r, v). put_cell (columns a) name r v) (zip (rows a) vs)"
  by (simp add: assign_column_def)

lemma columns_assign_column:
  "columns (assign_column a name vs) =
     (if name \<in> set (columns a) then columns a else columns a @ [name])"
  by (simp add: assign_column_def)

lemma lookup_replaced:
  "length r = length cols \<Longrightarrow> name \<in> set cols \<Longrightarrow>
   map_of (zip cols (map (\<lambda>(c, x). if c = name then v else x) (zip cols r))) name = Some v"
proof (induction r cols rule: list_induct2)
  case Nil
  then show ?case by simp
next
  case (Cons x xs c cs)
  then show ?case by auto
qed

lemma lookup_put_cell:
  assumes "length r = length cols"
  shows "cell_of (if name \<in> set cols then cols else cols @ [name]) (put_cell cols name r v) name = v"
proof (cases "name \<in> set cols")
  case True
  then show ?thesis using lookup_replaced[OF assms True, of v]
    by (simp add: cell_of_def put_cell_def)
next
  case False
  then have "name \<notin> fst ` set (zip cols r)" by (auto dest: set_zip_leftD)
  then have n: "map_of (zip cols r) name = None" by (simp add: map_of_eq_None_iff)
  have "map_of (zip (cols @ [name]) (r @ [v])) name = Some v"
    using assms by (simp add: map_add_def n)
  then show ?thesis using False by (simp add: cell_of_def put_cell_def)
qed

lemma take_put_cell:
  assumes "length k = length gb" and "name \<notin> set gb"
  shows "take (length gb) (put_cell (gb @ an) name (k @ vals) v) = k"
proof (cases "name \<in> set (gb @ an)")
  case True
  have "map (\<lambda>(c, x). if c = name then v else x) (zip gb k) = k"
    using assms
  proof (induction k gb rule: list_induct2)
    case Nil
    then show ?case by simp
  next
    case (Cons x xs c cs)
    then show ?case by auto
  qed
  then show ?thesis using True assms by (simp add: put_cell_def zip_append)
next
  case False
  then show ?thesis using assms by (simp add: put_cell_def)
qed

lemma take_dropped:
  assumes "length gb \<le> length r" and "name \<notin> set gb"
  shows "take (length gb) (map snd (filter (\<lambda>(c, x). c \<noteq> name) (zip (gb @ rest) r))) =
         take (length gb) r"
proof -
  have z: "zip (gb @ rest) r = zip gb (take (length gb) r) @ zip rest (drop (length gb) r)"
    by (simp add: zip_append1)
  have keep: "filter (\<lambda>(c, x). c \<noteq> name) (zip gb (take (length gb) r)) = zip gb (take (length gb) r)"
    using assms(2) by (auto simp: filter_id_conv dest: set_zip_leftD)
  have len: "length (take (length gb) r) = length gb" using assms(1) by simp
  have "map snd (zip gb (take (length gb) r)) = take (length gb) r"
    using len by (simp add: map_snd_zip)
  then show ?thesis using len by (simp add: z keep)
qed

lemma rows_frame_of_rows [simp]: "rows (frame_of_rows cols rs) = rs"
  and columns_frame_of_rows [simp]: "columns (frame_of_rows cols rs) = cols"
  by (simp_all add: frame_of_rows_def)

lemma zip_map_same: "zip (map f xs) (map h xs) = map (\<lambda>x. (f x, h x)) xs"
  by (induction xs) simp_all

lemma rows_boolean_index_maps:
  "rows (boolean_index a (map B xs)) = map R (filter B xs)" if "rows a = map R xs"
proof -
  have "map fst (filter snd (zip (map R xs) (map B xs))) = map R (filter B xs)"
    by (induction xs) simp_all
  then show ?thesis using that by (simp add: boolean_index_def)
qed

text \<open>
  Property X1.  When no group-by column is named \<^verbatim>\<open>_group_count\<close>, every row of a table
  that \<^verbatim>\<open>create_aggregate_only_view\<close> returns starts with the key of a group of rows
  without a missing key value, and that group holds at least the minimum group size
  (by default the threshold) of raw rows, for every aggregator.
\<close>

theorem aggregate_view_rows_come_from_sufficient_groups:
  assumes ret: "create_aggregate_only_view agg self df gb aggs mgs = Inr out"
    and nm: "''_group_count'' \<notin> set gb"
  shows "\<forall>r \<in> set (rows out).
           take (length gb) r \<in> complete_groups df gb \<and>
           target_minimum self mgs \<le> int (group_size df gb (take (length gb) r))"
proof -
  define name where "name = ''_group_count''"
  define m where "m = py_or mgs (k_threshold self)"
  define agg_dict where "agg_dict = build_agg_dict df aggs"
  from ret obtain G where G: "groupby df gb = Inr G"
    by (cases "groupby df gb") (simp_all add: create_aggregate_only_view_def Let_def)
  have body: "(case (if agg_dict = [] then size_frame gb G
                     else (case agg_frame agg df gb agg_dict G of Inl e \<Rightarrow> Inl e
                           | Inr a \<Rightarrow> Inr (assign_column a name (group_sizes G)))) of
                 Inl e \<Rightarrow> Inl e
               | Inr aggregated \<Rightarrow>
                   if m \<noteq> 0 then
                     (case get_column aggregated name of Inl e \<Rightarrow> Inl e
                      | Inr counts \<Rightarrow>
                          (case series_ge counts m of Inl e \<Rightarrow> Inl e
                           | Inr keep \<Rightarrow> Inr (drop_column (boolean_index aggregated keep) name)))
                   else Inr aggregated) = Inr out"
    unfolding m_def agg_dict_def name_def
    using ret G by (simp add: create_aggregate_only_view_def Let_def)
  define sz where "sz = (\<lambda>g :: cell list \<times> cell list list. Some (Num (int (length (snd g)))))"
  define big where "big = (\<lambda>g :: cell list \<times> cell list list. m \<le> int (length (snd g)))"
  have S: "group_sizes G = map sz G"
    by (auto simp: group_sizes_def sz_def)
  have member: "k \<in> complete_groups df gb \<and> length k = length gb \<and> length ms = group_size df gb k"
    if "(k, ms) \<in> set G" for k ms
    using groupby_member[OF G that] by blast
  have goal_for: "take (length gb) r \<in> complete_groups df gb \<and>
           target_minimum self mgs \<le> int (group_size df gb (take (length gb) r))"
    if g: "g \<in> set G" and ok: "m = 0 \<or> big g" and tk: "take (length gb) r = fst g" for r g
  proof -
    obtain k ms where ge: "g = (k, ms)" by (cases g)
    from member[of k ms] g ge have mem: "k \<in> complete_groups df gb" "length ms = group_size df gb k"
      by simp_all
    from ok have "m = 0 \<or> m \<le> int (group_size df gb k)" by (simp add: big_def ge mem(2))
    from target_minimum_le[OF m_def this] mem(1) tk show ?thesis by (simp add: ge)
  qed
  show ?thesis
  proof (cases "agg_dict = []")
    case True
    define R where "R = (\<lambda>g :: cell list \<times> cell list list. fst g @ [sz g])"
    from body True have nc: "''count'' \<notin> set gb"
      by (auto simp: size_frame_def split: if_splits)
    define a where "a = frame_of_rows (gb @ [''count'']) (map R G)"
    have sf: "size_frame gb G = Inr a"
      using nc by (auto simp: size_frame_def a_def R_def sz_def split_def)
    have nocol: "get_column a name = Inl (KeyError name)"
      using nm by (simp add: get_column_def a_def name_def)
    from body have "m = 0 \<and> out = a"
      using True sf nocol by (auto split: if_splits)
    then have m0: "m = 0" and ro: "rows out = map R G" by (simp_all add: a_def)
    show ?thesis
    proof
      fix r assume "r \<in> set (rows out)"
      then obtain g where g: "g \<in> set G" and r: "r = R g" by (auto simp: ro)
      obtain k ms where ge: "g = (k, ms)" by (cases g)
      from member[of k ms] g ge have "length k = length gb" by simp
      then have "take (length gb) r = fst g" by (simp add: r R_def ge)
      from goal_for[OF g _ this] m0 show "take (length gb) r \<in> complete_groups df gb \<and>
           target_minimum self mgs \<le> int (group_size df gb (take (length gb) r))" by simp
    qed
  next
    case False
    define cols0 where "cols0 = gb @ map fst agg_dict"
    from body False obtain a where af: "agg_frame agg df gb agg_dict G = Inr a"
      by (cases "agg_frame agg df gb agg_dict G") simp_all
    then obtain A where sr: "stat_rows agg df agg_dict G = Some A"
      and a: "a = frame_of_rows cols0 A"
      by (auto simp: agg_frame_def cols0_def split: list.splits option.splits)
    define rowA where "rowA = (\<lambda>g :: cell list \<times> cell list list.
        the (case g of (k, members) \<Rightarrow> map_option (\<lambda>vs. k @ vs) (stat_values agg df agg_dict members)))"
    from those_map_Some[OF sr[unfolded stat_rows_def]]
    have A: "A = map rowA G"
      and allsome: "\<forall>g \<in> set G. (case g of (k, members) \<Rightarrow>
            map_option (\<lambda>vs. k @ vs) (stat_values agg df agg_dict members)) \<noteq> None"
      by (simp_all add: rowA_def)
    have rowA_shape: "\<exists>vals. rowA (k, ms) = k @ vals \<and> length vals = length agg_dict"
      if "(k, ms) \<in> set G" for k ms
    proof -
      from allsome that obtain vs where vs: "stat_values agg df agg_dict ms = Some vs"
        by fastforce
      from stat_values_length[OF vs] show ?thesis by (simp add: rowA_def vs)
    qed
    define R where "R = (\<lambda>g. put_cell cols0 name (rowA g) (sz g))"
    define aggregated where "aggregated = assign_column a name (group_sizes G)"
    have rows_agg: "rows aggregated = map R G"
      by (simp add: aggregated_def rows_assign_column a A S zip_map_same R_def)
    have cols_agg: "columns aggregated = (if name \<in> set cols0 then cols0 else cols0 @ [name])"
      by (simp add: aggregated_def columns_assign_column a)
    have take_R: "take (length gb) (R g) = fst g" if "g \<in> set G" for g
    proof -
      obtain k ms where ge: "g = (k, ms)" by (cases g)
      from rowA_shape[of k ms] that ge obtain vals where v: "rowA (k, ms) = k @ vals" by auto
      from member[of k ms] that ge have len: "length k = length gb" by simp
      from nm have nm': "name \<notin> set gb" by (simp add: name_def)
      from take_put_cell[OF len nm', of "map fst agg_dict" vals "sz (k, ms)"] show ?thesis
        by (simp add: R_def v cols0_def ge)
    qed
    have len_rowA: "length (rowA g) = length cols0" if "g \<in> set G" for g
    proof -
      obtain k ms where ge: "g = (k, ms)" by (cases g)
      from rowA_shape[of k ms] that ge obtain vals where
        v: "rowA g = k @ vals" "length vals = length agg_dict" by auto
      from member[of k ms] that ge have "length k = length gb" by simp
      with v show ?thesis by (simp add: cols0_def)
    qed
    show ?thesis
    proof (cases "m = 0")
      case True
      from body have "out = aggregated"
        using False af True by (simp add: aggregated_def)
      then have ro: "rows out = map R G" by (simp add: rows_agg)
      show ?thesis
      proof
        fix r assume "r \<in> set (rows out)"
        then obtain g where g: "g \<in> set G" and r: "r = R g" by (auto simp: ro)
        from goal_for[OF g _ take_R[OF g, folded r]] True
        show "take (length gb) r \<in> complete_groups df gb \<and>
           target_minimum self mgs \<le> int (group_size df gb (take (length gb) r))" by simp
      qed
    next
      case mne: False
      have inc: "name \<in> set (columns aggregated)" by (simp add: cols_agg)
      have counts: "map (\<lambda>r. cell_of (columns aggregated) r name) (rows aggregated) = map sz G"
        unfolding rows_agg cols_agg map_map comp_def R_def
        by (rule map_cong[OF refl]) (simp add: lookup_put_cell len_rowA)
      have gc: "get_column aggregated name = Inr (map sz G)"
        using inc counts by (simp add: get_column_def)
      have ge: "series_ge (map sz G) m = Inr (map big G)"
        by (simp add: series_ge_def sz_def big_def list_all_iff comp_def)
      from body have out: "out = drop_column (boolean_index aggregated (map big G)) name"
        using False af mne gc ge by (simp add: aggregated_def[symmetric])
      have rb: "rows (boolean_index aggregated (map big G)) = map R (filter big G)"
        by (rule rows_boolean_index_maps[OF rows_agg])
      have cb: "columns (boolean_index aggregated (map big G)) = columns aggregated" by simp
      have "\<exists>rest. columns aggregated = gb @ rest"
        unfolding cols_agg cols0_def by (cases "name \<in> set (gb @ map fst agg_dict)") simp_all
      then obtain rest where rest: "columns aggregated = gb @ rest" by blast
      show ?thesis
      proof
        fix r assume "r \<in> set (rows out)"
        then obtain g where g: "g \<in> set G" and bg: "big g"
          and r: "r = map snd (filter (\<lambda>(c, x). c \<noteq> name) (zip (columns aggregated) (R g)))"
          by (auto simp: out drop_column_def rb cb)
        from take_R[OF g] have "length gb \<le> length (R g)"
          by (metis length_take min.cobounded1 groupby_member[OF G] prod.collapse g)
        moreover from nm have "name \<notin> set gb" by (simp add: name_def)
        ultimately have "take (length gb) r = take (length gb) (R g)"
          using take_dropped[of gb "R g" name rest] by (simp add: r rest)
        then have "take (length gb) r = fst g" by (simp add: take_R[OF g])
        from goal_for[OF g _ this] bg
        show "take (length gb) r \<in> complete_groups df gb \<and>
           target_minimum self mgs \<le> int (group_size df gb (take (length gb) r))" by simp
      qed
    qed
  qed
qed

text \<open>
  Spend summed by city under the minimum 2: the city with three rows is shown, the city
  with one row and the row without a city are not.
\<close>

theorem aggregate_view_rows_come_from_sufficient_groups_witness:
  "create_aggregate_only_view agg_basic \<lparr>k_threshold = 2\<rparr> visits [''city''] [(''spend'', ''sum'')] None =
     Inr \<lparr>columns = [''city'', ''spend''], dtypes = [Object, Numeric],
          rows = [[Some (Text ''x''), Some (Num 35)]]\<rparr> \<and>
   ''_group_count'' \<notin> set [''city''] \<and>
   group_size visits [''city''] [Some (Text ''x'')] = 3 \<and>
   group_size visits [''city''] [Some (Text ''y'')] = 1"
proof -
  have run: "create_aggregate_only_view agg_basic \<lparr>k_threshold = 2\<rparr> visits [''city''] [(''spend'', ''sum'')] None =
     Inr \<lparr>columns = [''city'', ''spend''], dtypes = [Object, Numeric],
          rows = [[Some (Text ''x''), Some (Num 35)]]\<rparr>"
    "group_size visits [''city''] [Some (Text ''x'')] = 3"
    "group_size visits [''city''] [Some (Text ''y'')] = 1"
    by code_simp+
  have nm: "''_group_count'' \<notin> set [''city'']" by simp
  from aggregate_view_rows_come_from_sufficient_groups[OF run(1) nm] run nm
  show ?thesis by simp
qed

section \<open>Further properties of the check, the pipeline and the detector\<close>

text \<open>
  Property X2.  With a quasi-identifier column absent, the check returns \<open>k = 0\<close>, no
  compliance and the recommendation listing the missing columns, and the ensure pipeline
  without suppression and without generalisation returns the batch unchanged with that
  result.
\<close>

theorem missing_column_is_reported_without_suppression:
  assumes "\<not> set qi \<subseteq> set (columns df)"
  shows "check_k_anonymity self df qi =
           Inr \<lparr>k_value = 0, is_compliant = False, vulnerable_combinations = [],
                recommendations = [''Missing columns: '' @
                  repr_str_list (filter (\<lambda>col. col \<notin> set (columns df)) qi)]\<rparr> \<and>
         ensure_k_anonymity self df qi None False =
           Inr (df, \<lparr>k_value = 0, is_compliant = False, vulnerable_combinations = [],
                recommendations = [''Missing columns: '' @
                  repr_str_list (filter (\<lambda>col. col \<notin> set (columns df)) qi)]\<rparr>)"
  using check_k_anonymity_missing[OF assms, of self]
  by (simp add: ensure_k_anonymity_def apply_generalization_def)

text \<open>The batch with the columns \<open>age\<close> and \<open>city\<close>, asked for \<open>age\<close> and \<open>zip\<close>.\<close>

theorem missing_column_is_reported_without_suppression_witness:
  "\<not> set [''age'', ''zip''] \<subseteq> set (columns ages) \<and>
   ensure_k_anonymity \<lparr>k_threshold = 5\<rparr> ages [''age'', ''zip''] None False =
     Inr (ages, \<lparr>k_value = 0, is_compliant = False, vulnerable_combinations = [],
          recommendations = [''Missing columns: ['' @ [CHR 0x27] @ ''zip'' @ [CHR 0x27] @ '']'']\<rparr>)"
proof -
  have h: "\<not> set [''age'', ''zip''] \<subseteq> set (columns ages)" by (simp add: ages_def)
  have "filter (\<lambda>col. col \<notin> set (columns ages)) [''age'', ''zip''] = [''zip'']"
    by (simp add: ages_def)
  then show ?thesis
    using missing_column_is_reported_without_suppression[OF h, of "\<lparr>k_threshold = 5\<rparr>"] h
    by (simp add: repr_str_list_def)
qed

text \<open>
  Property X3.  On a batch whose check is compliant, the ensure pipeline without
  generalisation returns the batch unchanged with the result of the check, whether or not
  suppression is enabled: running it again on its own output changes nothing.
\<close>

theorem ensure_k_anonymity_leaves_compliant_batch:
  assumes "check_k_anonymity self df qi = Inr res" and "is_compliant res"
  shows "ensure_k_anonymity self df qi None apply_suppression = Inr (df, res)"
  using assms by (simp add: ensure_k_anonymity_def apply_generalization_def)

text \<open>The specification's example under the threshold 2, which its smallest group meets.\<close>

theorem ensure_k_anonymity_leaves_compliant_batch_witness:
  "check_k_anonymity \<lparr>k_threshold = 2\<rparr> census [''zip''] =
     Inr \<lparr>k_value = 2, is_compliant = True, vulnerable_combinations = [], recommendations = []\<rparr> \<and>
   is_compliant \<lparr>k_value = 2, is_compliant = True, vulnerable_combinations = [], recommendations = []\<rparr> \<and>
   ensure_k_anonymity \<lparr>k_threshold = 2\<rparr> census [''zip''] None True =
     Inr (census, \<lparr>k_value = 2, is_compliant = True, vulnerable_combinations = [], recommendations = []\<rparr>)"
proof -
  have c: "check_k_anonymity \<lparr>k_threshold = 2\<rparr> census [''zip''] =
     Inr \<lparr>k_value = 2, is_compliant = True, vulnerable_combinations = [], recommendations = []\<rparr>"
    by code_simp
  have i: "is_compliant \<lparr>k_value = 2, is_compliant = True, vulnerable_combinations = [], recommendations = []\<rparr>"
    by simp
  from ensure_k_anonymity_leaves_compliant_batch[OF c i, of True] c i show ?thesis by simp
qed

lemma sample_values_detect_pattern:
  "d \<in> set (detect_pattern search self col sample full t) \<Longrightarrow>
   sample_values d = take 5 (pattern_matches search t sample) \<and>
   row_count d = (case full of None \<Rightarrow> int (length sample)
                  | Some n \<Rightarrow> if n = 0 then int (length sample) else n)"
  by (auto simp: detect_pattern_unfold split: if_splits)

text \<open>
  Property X4.  Every classification carries at most five sample values, and one of a
  pattern type carries only sampled values that matched the pattern, and as row count the
  full size of the column when it is given and not 0, else the size of the sample.
\<close>

theorem pattern_classification_samples_and_row_count:
  assumes "d \<in> set (detect_pii_in_column search self col sample full)"
  shows "length (sample_values d) \<le> 5 \<and>
         (pii_type d \<noteq> NAME \<longrightarrow>
            set (sample_values d) \<subseteq> set (pattern_matches search (pii_type d) sample) \<and>
            row_count d = (case full of None \<Rightarrow> int (length sample)
                           | Some n \<Rightarrow> if n = 0 then int (length sample) else n))"
proof -
  from assms have ne: "sample \<noteq> []" by (auto simp: detect_pii_in_column_def)
  from assms ne consider
    (pat) t where "t \<in> set PATTERNS" "d \<in> set (detect_pattern search self col sample full t)"
    | (nam) "d \<in> set (detect_names self col sample)"
    by (auto simp: detect_pii_in_column_def)
  then show ?thesis
  proof cases
    case pat
    from pii_type_detect_pattern[OF pat(2)] have ty: "pii_type d = t" .
    from sample_values_detect_pattern[OF pat(2)] show ?thesis
      by (auto simp: ty dest: in_set_takeD)
  next
    case nam
    from pii_type_detect_names[OF nam] have ty: "pii_type d = NAME" .
    have "length (filter truthy (take 5 sample)) \<le> 5"
      by (rule order_trans[OF length_filter_le]) simp
    with nam show ?thesis
      by (auto simp: ty detect_names_def Let_def split: if_splits)
  qed
qed

text \<open>The sample with 8 matching values of 10, from a column of 250 rows.\<close>

theorem pattern_classification_samples_and_row_count_witness:
  "\<lparr>pii_type = EMAIL, column_name = ''contact'', row_count = 250,
       sample_values = map PyStr [''a@x.io'', ''b@x.io'', ''c@x.io'', ''d@x.io'', ''e@x.io''],
       confidence = 24 / 25\<rparr>
     \<in> set (detect_pii_in_column contains_at \<lparr>min_confidence = 7 / 10\<rparr> ''contact'' mostly_emails (Some 250)) \<and>
   length (map PyStr [''a@x.io'', ''b@x.io'', ''c@x.io'', ''d@x.io'', ''e@x.io'']) = 5 \<and>
   length (pattern_matches contains_at EMAIL mostly_emails) = 8"
proof -
  have run: "detect_pii_in_column contains_at \<lparr>min_confidence = 7 / 10\<rparr> ''contact'' mostly_emails (Some 250) =
     [\<lparr>pii_type = EMAIL, column_name = ''contact'', row_count = 250,
       sample_values = map PyStr [''a@x.io'', ''b@x.io'', ''c@x.io'', ''d@x.io'', ''e@x.io''],
       confidence = 24 / 25\<rparr>]"
    "length (pattern_matches contains_at EMAIL mostly_emails) = 8"
    by code_simp+
  then have m: "\<lparr>pii_type = EMAIL, column_name = ''contact'', row_count = 250,
       sample_values = map PyStr [''a@x.io'', ''b@x.io'', ''c@x.io'', ''d@x.io'', ''e@x.io''],
       confidence = 24 / 25\<rparr>
     \<in> set (detect_pii_in_column contains_at \<lparr>min_confidence = 7 / 10\<rparr> ''contact'' mostly_emails (Some 250))"
    by simp
  from pattern_classification_samples_and_row_count[OF m] m run show ?thesis by simp
qed

end
